theory Spec2Isabelle
  imports Main "HOL-Library.Sublist" "HOL-Library.AList"
begin

section \<open>JavaScript strings\<close>

text \<open>
  Strings are character lists.  \<open>startsWith\<close> and \<open>endsWith\<close> are
  \<^verbatim>\<open>String.prototype.startsWith\<close> and \<^verbatim>\<open>String.prototype.endsWith\<close> with one
  argument; \<open>show_nat\<close> is the decimal text that a template literal gives a
  non-negative integer such as \<^verbatim>\<open>Date.now()\<close>.
\<close>

type_synonym bytes = "char list"

definition startsWith :: "string \<Rightarrow> string \<Rightarrow> bool" where
  "startsWith s p = (take (length p) s = p)"

definition endsWith :: "string \<Rightarrow> string \<Rightarrow> bool" where
  "endsWith s p = (length p \<le> length s \<and> drop (length s - length p) s = p)"

definition digit_char :: "nat \<Rightarrow> char" where
  "digit_char d = ''0123456789'' ! (d mod 10)"

fun show_nat :: "nat \<Rightarrow> string" where
  "show_nat n = (if n < 10 then [digit_char n] else show_nat (n div 10) @ [digit_char (n mod 10)])"

declare show_nat.simps [simp del]

definition is_digit :: "char \<Rightarrow> bool" where
  "is_digit c = (c \<in> set ''0123456789'')"

section \<open>Paths: \<^verbatim>\<open>path.join\<close> of Node.js on POSIX\<close>

text \<open>
  \<^verbatim>\<open>server.js\<close> builds every file path with \<^verbatim>\<open>path.join(LOCAL_UPLOAD_DIR, fileName)\<close>.
  The function belongs to the Node.js runtime, not to the repository; it is
  modelled here on path segments, after its documented POSIX behaviour: the
  non-empty arguments are glued with \<^verbatim>\<open>/\<close> and the result is normalised.
  Normalising drops empty and \<^verbatim>\<open>.\<close> segments, lets \<^verbatim>\<open>..\<close> cancel the
  segment before it, keeps the \<^verbatim>\<open>..\<close> that remain in front of a relative
  path, keeps a trailing slash, and returns \<^verbatim>\<open>.\<close> (or \<^verbatim>\<open>./\<close>) for an
  empty relative result.
\<close>

fun split_slash :: "string \<Rightarrow> string list" where
  "split_slash [] = [[]]"
| "split_slash (c # cs) =
     (if c = CHR ''/'' then [] # split_slash cs
      else (case split_slash cs of [] \<Rightarrow> [[c]] | s # ss \<Rightarrow> (c # s) # ss))"

fun join_slash :: "string list \<Rightarrow> string" where
  "join_slash [] = []"
| "join_slash [s] = s"
| "join_slash (s # ss) = s @ CHR ''/'' # join_slash ss"

definition norm_step :: "bool \<Rightarrow> string list \<Rightarrow> string \<Rightarrow> string list" where
  "norm_step allowAboveRoot res seg =
     (if seg = [] \<or> seg = ''.'' then res
      else if seg = ''..'' then
        (if res \<noteq> [] \<and> last res \<noteq> ''..'' then butlast res
         else if allowAboveRoot then res @ [''..'']
         else res)
      else res @ [seg])"

definition normalizeString :: "string \<Rightarrow> bool \<Rightarrow> string" where
  "normalizeString p allowAboveRoot =
     join_slash (foldl (norm_step allowAboveRoot) [] (split_slash p))"

definition isAbsolute :: "string \<Rightarrow> bool" where
  "isAbsolute p = (case p of [] \<Rightarrow> False | c # _ \<Rightarrow> c = CHR ''/'')"

definition trailingSeparator :: "string \<Rightarrow> bool" where
  "trailingSeparator p = (p \<noteq> [] \<and> last p = CHR ''/'')"

definition posix_normalize :: "string \<Rightarrow> string" where
  "posix_normalize p =
     (if p = [] then ''.''
      else
        let q = normalizeString p (\<not> isAbsolute p) in
        if q = [] then
          (if isAbsolute p then ''/'' else if trailingSeparator p then ''./'' else ''.'')
        else
          (if isAbsolute p then CHR ''/'' # q else q) @
          (if trailingSeparator p then ''/'' else []))"

definition join2 :: "string \<Rightarrow> string \<Rightarrow> string" where
  "join2 a b =
     (if a = [] \<and> b = [] then ''.''
      else if a = [] then posix_normalize b
      else if b = [] then posix_normalize a
      else posix_normalize (a @ CHR ''/'' # b))"

section \<open>The file system\<close>

text \<open>
  The server reaches the disk through the synchronous \<^verbatim>\<open>fs\<close> calls of Node.js.
  A file system is a working directory and a table from resolved paths (lists of
  segments below \<^verbatim>\<open>/\<close>) to nodes.  \<open>resolve\<close> is what the operating system does
  with a path string: a relative path starts at the working directory, empty and
  \<^verbatim>\<open>.\<close> segments are skipped and \<^verbatim>\<open>..\<close> steps to the parent (symbolic links are
  not modelled).  Each call fails the way the system call does: \<open>ENOENT\<close> for a
  missing entry, \<open>EISDIR\<close> and \<open>ENOTDIR\<close> for an entry of the wrong kind.
\<close>

datatype node = File bytes nat nat | Dir nat nat nat

record stats =
  stat_size :: nat
  birthtime :: nat
  mtime :: nat

fun node_stats :: "node \<Rightarrow> stats" where
  "node_stats (File c b m) = \<lparr>stat_size = length c, birthtime = b, mtime = m\<rparr>"
| "node_stats (Dir n b m) = \<lparr>stat_size = n, birthtime = b, mtime = m\<rparr>"

record filesys =
  cwd :: "string list"
  nodes :: "(string list \<times> node) list"

datatype io_error = ENOENT | EISDIR | ENOTDIR

definition os_step :: "string list \<Rightarrow> string \<Rightarrow> string list" where
  "os_step res seg =
     (if seg = [] \<or> seg = ''.'' then res
      else if seg = ''..'' then butlast res
      else res @ [seg])"

definition resolve :: "filesys \<Rightarrow> string \<Rightarrow> string list" where
  "resolve f p = foldl os_step (if isAbsolute p then [] else cwd f) (split_slash p)"

definition lookup :: "filesys \<Rightarrow> string \<Rightarrow> node option" where
  "lookup f p = (if p = [] then None else map_of (nodes f) (resolve f p))"

definition existsSync :: "filesys \<Rightarrow> string \<Rightarrow> bool" where
  "existsSync f p = (lookup f p \<noteq> None)"

definition statSync :: "filesys \<Rightarrow> string \<Rightarrow> io_error + stats" where
  "statSync f p = (case lookup f p of None \<Rightarrow> Inl ENOENT | Some n \<Rightarrow> Inr (node_stats n))"

definition unlinkSync :: "filesys \<Rightarrow> string \<Rightarrow> io_error + filesys" where
  "unlinkSync f p =
     (case lookup f p of
        None \<Rightarrow> Inl ENOENT
      | Some (Dir n b m) \<Rightarrow> Inl EISDIR
      | Some (File c b m) \<Rightarrow> Inr (f\<lparr>nodes := AList.delete (resolve f p) (nodes f)\<rparr>))"

definition writeFile :: "filesys \<Rightarrow> string \<Rightarrow> bytes \<Rightarrow> nat \<Rightarrow> io_error + filesys" where
  "writeFile f dst c now =
     (case lookup f dst of
        Some (Dir n' b' m') \<Rightarrow> Inl EISDIR
      | Some (File c' b' m') \<Rightarrow>
          Inr (f\<lparr>nodes := AList.update (resolve f dst) (File c b' now) (nodes f)\<rparr>)
      | None \<Rightarrow>
          (if dst = [] \<or> resolve f dst = [] then Inl ENOENT
           else
             (case map_of (nodes f) (butlast (resolve f dst)) of
                Some (Dir n' b' m') \<Rightarrow>
                  Inr (f\<lparr>nodes := AList.update (resolve f dst) (File c now now) (nodes f)\<rparr>)
              | Some (File c' b' m') \<Rightarrow> Inl ENOTDIR
              | None \<Rightarrow> Inl ENOENT)))"

definition copyFileSync :: "filesys \<Rightarrow> string \<Rightarrow> string \<Rightarrow> nat \<Rightarrow> io_error + filesys" where
  "copyFileSync f src dst now =
     (case lookup f src of
        None \<Rightarrow> Inl ENOENT
      | Some (Dir n b m) \<Rightarrow> Inl EISDIR
      | Some (File c b m) \<Rightarrow> writeFile f dst c now)"

definition readdirSync :: "filesys \<Rightarrow> string \<Rightarrow> io_error + string list" where
  "readdirSync f p =
     (case lookup f p of
        None \<Rightarrow> Inl ENOENT
      | Some (File c b m) \<Rightarrow> Inl ENOTDIR
      | Some (Dir n b m) \<Rightarrow>
          Inr (map (\<lambda>k. last k)
                 (filter (\<lambda>k. k \<noteq> [] \<and> butlast k = resolve f p) (map fst (nodes f)))))"

section \<open>The File Store Service: \<^verbatim>\<open>backend/server.js\<close>\<close>

subsection \<open>Configuration, requests and responses\<close>

text \<open>
  \<^verbatim>\<open>process.env\<close> supplies \<^verbatim>\<open>UPLOAD_DIR\<close> and \<^verbatim>\<open>NODE_ENV\<close>; an unset or empty
  \<^verbatim>\<open>UPLOAD_DIR\<close> is falsy, so the storage root is then \<^verbatim>\<open>./uploads\<close>.
\<close>

record env =
  UPLOAD_DIR :: "string option"
  NODE_ENV :: "string option"

definition LOCAL_UPLOAD_DIR :: "env \<Rightarrow> string" where
  "LOCAL_UPLOAD_DIR e =
     (case UPLOAD_DIR e of None \<Rightarrow> ''./uploads'' | Some d \<Rightarrow> if d = [] then ''./uploads'' else d)"

text \<open>
  A JSON body is a value of \<open>json\<close>; \<open>JDate t\<close> is a \<^verbatim>\<open>Date\<close> at epoch
  millisecond \<open>t\<close>, which \<^verbatim>\<open>res.json\<close> and \<^verbatim>\<open>toISOString\<close> print in ISO 8601.
  \<open>Attachment n c\<close> is the answer of \<^verbatim>\<open>res.download\<close>: the bytes \<open>c\<close> with
  the file name \<open>n\<close> in the content disposition.
\<close>

datatype json =
  JBool bool | JNum nat | JStr string | JDate nat | JArr "json list" | JObj "(string \<times> json) list"

datatype body = Json json | Attachment string bytes

record response =
  status :: nat
  body :: body

text \<open>
  A handler either writes a response or, when an \<^verbatim>\<open>async\<close> handler throws outside
  its \<^verbatim>\<open>try\<close>, rejects its promise and writes nothing.
\<close>

datatype outcome = Responded response | Rejected

definition respond :: "nat \<Rightarrow> (string \<times> json) list \<Rightarrow> outcome" where
  "respond st kv = Responded \<lparr>status = st, body = Json (JObj kv)\<rparr>"

text \<open>The message of an I/O exception is abbreviated to its error code.\<close>

fun message :: "io_error \<Rightarrow> string" where
  "message ENOENT = ''ENOENT''"
| "message EISDIR = ''EISDIR''"
| "message ENOTDIR = ''ENOTDIR''"

text \<open>\<^verbatim>\<open>req.file\<close> as multer's disk storage fills it in.\<close>

record upload_file =
  originalname :: string
  path :: string
  file_size :: nat

subsection \<open>Health, liveness and readiness\<close>

definition health :: "nat \<Rightarrow> outcome" where
  "health now =
     respond 200 [(''status'', JStr ''ok''), (''timestamp'', JDate now), (''service'', JStr ''csv-upload'')]"

definition live :: outcome where
  "live = respond 200 [(''live'', JBool True)]"

text \<open>\<^verbatim>\<open>fs.existsSync\<close> never throws, so the \<^verbatim>\<open>catch\<close> of the readiness probe is dead code.\<close>

definition ready :: "env \<Rightarrow> filesys \<Rightarrow> outcome" where
  "ready e f =
     (if existsSync f (LOCAL_UPLOAD_DIR e)
      then respond 200 [(''ready'', JBool True), (''storage'', JStr ''available'')]
      else respond 503 [(''ready'', JBool False), (''storage'', JStr ''unavailable'')])"

subsection \<open>\<^verbatim>\<open>POST /upload\<close>\<close>

text \<open>
  The \<^verbatim>\<open>try\<close> block returns either the exception together with the file system
  as it was when the exception was thrown, or the response.  \<open>now\<close> is the
  reading of \<^verbatim>\<open>Date.now()\<close> for the stored name, \<open>later\<close> the \<^verbatim>\<open>new Date()\<close>
  of the response.
\<close>

definition upload_try ::
  "env \<Rightarrow> nat \<Rightarrow> nat \<Rightarrow> upload_file option \<Rightarrow> filesys \<Rightarrow> (io_error \<times> filesys) + (outcome \<times> filesys)" where
  "upload_try e now later rf f =
     (case rf of
        None \<Rightarrow> Inr (respond 400 [(''success'', JBool False), (''error'', JStr ''No file provided'')], f)
      | Some file \<Rightarrow>
          if \<not> endsWith (originalname file) ''.csv'' then
            (case unlinkSync f (path file) of
               Inl err \<Rightarrow> Inl (err, f)
             | Inr f1 \<Rightarrow>
                 Inr (respond 400 [(''success'', JBool False), (''error'', JStr ''Only CSV files are allowed'')], f1))
          else
            let fileName = show_nat now @ ''-'' @ originalname file;
                filePath = join2 (LOCAL_UPLOAD_DIR e) fileName
            in (case copyFileSync f (path file) filePath now of
                  Inl err \<Rightarrow> Inl (err, f)
                | Inr f1 \<Rightarrow>
                    (case unlinkSync f1 (path file) of
                       Inl err \<Rightarrow> Inl (err, f1)
                     | Inr f2 \<Rightarrow>
                         Inr (respond 200
                                [(''success'', JBool True),
                                 (''message'', JStr ''File uploaded successfully''),
                                 (''fileName'', JStr (originalname file)),
                                 (''savedAs'', JStr fileName),
                                 (''size'', JNum (file_size file)),
                                 (''path'', JStr filePath),
                                 (''uploadedAt'', JDate later)], f2))))"

definition upload_catch :: "io_error \<Rightarrow> upload_file option \<Rightarrow> filesys \<Rightarrow> outcome \<times> filesys" where
  "upload_catch err rf f =
     (let failed = respond 500 [(''success'', JBool False), (''error'', JStr ''Failed to upload file''),
                                (''message'', JStr (message err))]
      in case rf of
           None \<Rightarrow> (failed, f)
         | Some file \<Rightarrow>
             if existsSync f (path file) then
               (case unlinkSync f (path file) of
                  Inl err' \<Rightarrow> (Rejected, f)
                | Inr f1 \<Rightarrow> (failed, f1))
             else (failed, f))"

definition handleUpload ::
  "env \<Rightarrow> nat \<Rightarrow> nat \<Rightarrow> upload_file option \<Rightarrow> filesys \<Rightarrow> outcome \<times> filesys" where
  "handleUpload e now later rf f =
     (case upload_try e now later rf f of
        Inr r \<Rightarrow> r
      | Inl (err, f1) \<Rightarrow> upload_catch err rf f1)"

subsection \<open>\<^verbatim>\<open>GET /files\<close>, \<^verbatim>\<open>GET /files/:fileName\<close> and \<^verbatim>\<open>GET /download/:fileName\<close>\<close>

definition file_detail :: "string \<Rightarrow> stats \<Rightarrow> string \<Rightarrow> json" where
  "file_detail nm st p =
     JObj [(''fileName'', JStr nm), (''size'', JNum (stat_size st)), (''createdAt'', JDate (birthtime st)),
           (''modifiedAt'', JDate (mtime st)), (''path'', JStr p)]"

fun stat_each :: "filesys \<Rightarrow> string \<Rightarrow> string list \<Rightarrow> io_error + json list" where
  "stat_each f root [] = Inr []"
| "stat_each f root (nm # nms) =
     (case statSync f (join2 root nm) of
        Inl e \<Rightarrow> Inl e
      | Inr st \<Rightarrow>
          (case stat_each f root nms of
             Inl e \<Rightarrow> Inl e
           | Inr ds \<Rightarrow> Inr (file_detail nm st (join2 root nm) # ds)))"

definition list_failed :: "io_error \<Rightarrow> outcome" where
  "list_failed e =
     respond 500 [(''success'', JBool False), (''error'', JStr ''Failed to list files''),
                  (''message'', JStr (message e))]"

definition listFiles :: "env \<Rightarrow> filesys \<Rightarrow> outcome" where
  "listFiles e f =
     (case readdirSync f (LOCAL_UPLOAD_DIR e) of
        Inl err \<Rightarrow> list_failed err
      | Inr files \<Rightarrow>
          (case stat_each f (LOCAL_UPLOAD_DIR e) files of
             Inl err \<Rightarrow> list_failed err
           | Inr fileDetails \<Rightarrow>
               respond 200 [(''success'', JBool True), (''message'', JStr ''Files listed successfully''),
                            (''directory'', JStr (LOCAL_UPLOAD_DIR e)), (''fileCount'', JNum (length fileDetails)),
                            (''files'', JArr fileDetails)]))"

definition access_denied :: outcome where
  "access_denied = respond 403 [(''success'', JBool False), (''error'', JStr ''Access denied'')]"

definition file_not_found :: outcome where
  "file_not_found = respond 404 [(''success'', JBool False), (''error'', JStr ''File not found'')]"

definition getFileMetadata :: "env \<Rightarrow> string \<Rightarrow> filesys \<Rightarrow> outcome" where
  "getFileMetadata e fileName f =
     (let filePath = join2 (LOCAL_UPLOAD_DIR e) fileName in
      if \<not> startsWith filePath (LOCAL_UPLOAD_DIR e) then access_denied
      else if \<not> existsSync f filePath then file_not_found
      else
        (case statSync f filePath of
           Inl err \<Rightarrow>
             respond 500 [(''success'', JBool False), (''error'', JStr ''Failed to get file details''),
                          (''message'', JStr (message err))]
         | Inr st \<Rightarrow>
             respond 200 [(''success'', JBool True), (''file'', file_detail fileName st filePath)]))"

text \<open>
  The error-handling middleware, reached through \<^verbatim>\<open>next(err)\<close>; the message is
  shown only when \<^verbatim>\<open>NODE_ENV\<close> is \<^verbatim>\<open>development\<close>.
\<close>

definition errorHandler :: "env \<Rightarrow> string \<Rightarrow> outcome" where
  "errorHandler e msg =
     respond 500 [(''success'', JBool False), (''error'', JStr ''Internal server error''),
                  (''message'', JStr (if NODE_ENV e = Some ''development'' then msg else ''An error occurred''))]"

text \<open>
  \<^verbatim>\<open>res.download(filePath)\<close> sends a regular file as an attachment named after the
  last segment of the path; for anything else Express hands the error to the
  error-handling middleware.
\<close>

definition basename :: "string \<Rightarrow> string" where
  "basename p = last (split_slash p)"

definition download :: "env \<Rightarrow> filesys \<Rightarrow> string \<Rightarrow> outcome" where
  "download e f p =
     (case lookup f p of
        Some (File c b m) \<Rightarrow> Responded \<lparr>status = 200, body = Attachment (basename p) c\<rparr>
      | Some (Dir n b m) \<Rightarrow> errorHandler e (message EISDIR)
      | None \<Rightarrow> errorHandler e (message ENOENT))"

definition downloadFile :: "env \<Rightarrow> string \<Rightarrow> filesys \<Rightarrow> outcome" where
  "downloadFile e fileName f =
     (let filePath = join2 (LOCAL_UPLOAD_DIR e) fileName in
      if \<not> startsWith filePath (LOCAL_UPLOAD_DIR e) then access_denied
      else if \<not> existsSync f filePath then file_not_found
      else download e f filePath)"

subsection \<open>Routing\<close>

text \<open>
  A request is its method, the decoded segments of its path (none of them empty)
  and, for a multipart body, the one file part it carries.  \<open>multer_single\<close> is
  \<^verbatim>\<open>upload.single('csv')\<close> of the multer library with \<^verbatim>\<open>dest: '/tmp/uploads/'\<close>,
  modelled after its documentation: a file part under another field name is an
  error passed to \<^verbatim>\<open>next\<close>, a part under the expected name is written to a
  file with a fresh name \<open>tmpname\<close> in the destination directory and described
  in \<^verbatim>\<open>req.file\<close>.  Requests are the ones that \<^verbatim>\<open>express.static\<close> passes on.
\<close>

datatype http_method = GET | POST | PUT | PATCH | DELETE

fun method_name :: "http_method \<Rightarrow> string" where
  "method_name GET = ''GET''"
| "method_name POST = ''POST''"
| "method_name PUT = ''PUT''"
| "method_name PATCH = ''PATCH''"
| "method_name DELETE = ''DELETE''"

record form_file =
  fieldname :: string
  filename :: string
  data :: bytes

record request =
  req_method :: http_method
  segments :: "string list"
  multipart :: "form_file option"

definition multer_single ::
  "string \<Rightarrow> form_file option \<Rightarrow> string \<Rightarrow> nat \<Rightarrow> filesys \<Rightarrow> string + (upload_file option \<times> filesys)" where
  "multer_single field part tmpname now f =
     (case part of
        None \<Rightarrow> Inr (None, f)
      | Some p \<Rightarrow>
          if fieldname p \<noteq> field then Inl ''Unexpected field''
          else
            (case writeFile f (join2 ''/tmp/uploads/'' tmpname) (data p) now of
               Inl err \<Rightarrow> Inl (message err)
             | Inr f1 \<Rightarrow>
                 Inr (Some \<lparr>originalname = filename p, path = join2 ''/tmp/uploads/'' tmpname,
                            file_size = length (data p)\<rparr>, f1)))"

definition notFound :: "request \<Rightarrow> outcome" where
  "notFound rq =
     respond 404 [(''success'', JBool False), (''error'', JStr ''Not found''),
                  (''path'', JStr (CHR ''/'' # join_slash (segments rq))),
                  (''method'', JStr (method_name (req_method rq)))]"

definition dispatch :: "env \<Rightarrow> nat \<Rightarrow> nat \<Rightarrow> string \<Rightarrow> request \<Rightarrow> filesys \<Rightarrow> outcome \<times> filesys" where
  "dispatch e now later tmpname rq f =
     (if req_method rq = GET \<and> segments rq = [''health''] then (health now, f)
      else if req_method rq = POST \<and> segments rq = [''upload''] then
        (case multer_single ''csv'' (multipart rq) tmpname now f of
           Inl msg \<Rightarrow> (errorHandler e msg, f)
         | Inr (rf, f1) \<Rightarrow> handleUpload e now later rf f1)
      else if req_method rq = GET \<and> segments rq = [''files''] then (listFiles e f, f)
      else if req_method rq = GET \<and> length (segments rq) = 2 \<and> hd (segments rq) = ''files'' then
        (getFileMetadata e (segments rq ! 1) f, f)
      else if req_method rq = GET \<and> length (segments rq) = 2 \<and> hd (segments rq) = ''download'' then
        (downloadFile e (segments rq ! 1) f, f)
      else if req_method rq = GET \<and> segments rq = [''live''] then (live, f)
      else if req_method rq = GET \<and> segments rq = [''ready''] then (ready e f, f)
      else (notFound rq, f))"

section \<open>The Upload Client\<close>

text \<open>
  The client script keeps one global, \<^verbatim>\<open>selectedFile\<close>, and writes to the page.
  The state below holds that global, the properties of the page elements that
  the modelled functions assign, and the HTTP requests issued so far.
  \<^verbatim>\<open>showToast\<close> is modelled by the text and type it shows (its timer, which
  hides the toast after four seconds, is left out).
\<close>

record browser_file =
  name :: string
  blob_size :: nat
  contents :: bytes

record http_request =
  request_method :: http_method
  url :: string
  formData :: "(string \<times> browser_file) list"

record page =
  selectedFile :: "browser_file option"
  fileInput_value :: string
  file_name_text :: string
  file_size_text :: string
  fileInfo_hidden :: bool
  uploadBtn_disabled :: bool
  progressContainer_hidden :: bool
  progressFill_width :: string
  progressText_text :: string
  loadingState_hidden :: bool
  filesContainer_hidden :: bool
  emptyState_hidden :: bool
  toast :: "(string \<times> string) option"
  sent :: "http_request list"

definition showToast :: "string \<Rightarrow> string \<Rightarrow> page \<Rightarrow> page" where
  "showToast msg ty s = s\<lparr>toast := Some (msg, ty)\<rparr>"

text \<open>
  \<^verbatim>\<open>(file.size / 1024).toFixed(2)\<close>.  A file size is an integer below \<open>2^53\<close>
  and 1024 is a power of two, so the quotient is exact in double precision and
  \<^verbatim>\<open>toFixed\<close> works on the exact rational \<open>num / den\<close>: it takes the integer
  \<open>n\<close> with \<open>n / 100\<close> nearest to it (the larger one on a tie), pads the
  decimal digits of \<open>n\<close> with zeros to at least three, and puts the point
  before the last two.
\<close>

definition toFixed2 :: "nat \<Rightarrow> nat \<Rightarrow> string" where
  "toFixed2 num den =
     (let n = (200 * num + den) div (2 * den);
          m = show_nat n;
          z = (if length m \<le> 2 then replicate (3 - length m) CHR ''0'' @ m else m)
      in take (length z - 2) z @ ''.'' @ drop (length z - 2) z)"

definition displayFileInfo :: "browser_file \<Rightarrow> page \<Rightarrow> page" where
  "displayFileInfo file s =
     s\<lparr>file_name_text := name file,
       file_size_text := toFixed2 (blob_size file) 1024 @ '' KB'',
       fileInfo_hidden := False,
       uploadBtn_disabled := False\<rparr>"

definition handleFileDrop :: "browser_file list \<Rightarrow> page \<Rightarrow> page" where
  "handleFileDrop files s =
     (case files of
        [] \<Rightarrow> s
      | file # rest \<Rightarrow>
          if \<not> endsWith (name file) ''.csv'' then showToast ''Please select a CSV file'' ''error'' s
          else if blob_size file > 100 * 1024 * 1024 then
            showToast ''File size must be less than 100MB'' ''error'' s
          else displayFileInfo file (s\<lparr>selectedFile := Some file\<rparr>))"

definition removeFile :: "page \<Rightarrow> page" where
  "removeFile s =
     s\<lparr>selectedFile := None, fileInfo_hidden := True, uploadBtn_disabled := True, fileInput_value := []\<rparr>"

definition resetProgress :: "page \<Rightarrow> page" where
  "resetProgress s =
     s\<lparr>progressContainer_hidden := True, progressFill_width := ''0%'', progressText_text := ''0%''\<rparr>"

text \<open>\<^verbatim>\<open>loadFiles\<close> up to its first \<^verbatim>\<open>await\<close>: the indicators and the request.\<close>

definition loadFiles_begin :: "string \<Rightarrow> page \<Rightarrow> page" where
  "loadFiles_begin API_URL s =
     s\<lparr>loadingState_hidden := False, filesContainer_hidden := True, emptyState_hidden := True,
       sent := sent s @ [\<lparr>request_method = GET, url = API_URL @ ''/files'', formData = []\<rparr>]\<rparr>"

text \<open>
  \<^verbatim>\<open>uploadFile\<close> up to \<^verbatim>\<open>xhr.send\<close>.  \<open>throws\<close> says whether creating, opening
  or sending the \<^verbatim>\<open>XMLHttpRequest\<close> throws, which takes the \<^verbatim>\<open>catch\<close> branch.
\<close>

definition uploadFile :: "string \<Rightarrow> bool \<Rightarrow> page \<Rightarrow> page" where
  "uploadFile API_URL throws s =
     (case selectedFile s of
        None \<Rightarrow> showToast ''Please select a file'' ''error'' s
      | Some file \<Rightarrow>
          let s1 = s\<lparr>uploadBtn_disabled := True, progressContainer_hidden := False\<rparr> in
          if throws then
            (resetProgress (showToast ''Error uploading file'' ''error'' s1))\<lparr>uploadBtn_disabled := False\<rparr>
          else
            s1\<lparr>sent := sent s1 @
                   [\<lparr>request_method = POST, url = API_URL @ ''/uploads3'', formData = [(''csv'', file)]\<rparr>]\<rparr>)"

text \<open>
  The two listeners that settle the request.  The \<^verbatim>\<open>load\<close> listener receives
  the status and \<open>parsed\<close>, the result of \<^verbatim>\<open>JSON.parse(xhr.responseText)\<close>,
  \<open>None\<close> when it throws a \<^verbatim>\<open>SyntaxError\<close>; the exception leaves the listener
  at once.
\<close>

definition on_load :: "string \<Rightarrow> nat \<Rightarrow> json option \<Rightarrow> page \<Rightarrow> page" where
  "on_load API_URL xhr_status parsed s =
     (if xhr_status = 200 then
        (case parsed of
           None \<Rightarrow> s
         | Some response \<Rightarrow>
             (resetProgress
                (loadFiles_begin API_URL
                   (removeFile (showToast ''File uploaded successfully!'' ''success'' s))))
             \<lparr>uploadBtn_disabled := False\<rparr>)
      else (resetProgress (showToast ''Upload failed'' ''error'' s))\<lparr>uploadBtn_disabled := False\<rparr>)"

definition on_error :: "page \<Rightarrow> page" where
  "on_error s =
     (resetProgress (showToast ''Upload error. Please try again.'' ''error'' s))\<lparr>uploadBtn_disabled := False\<rparr>"

text \<open>The request as the server sees it: the path of the URL, cut into segments.\<close>

definition received :: "string \<Rightarrow> http_request \<Rightarrow> request" where
  "received API_URL x =
     \<lparr>req_method = request_method x,
      segments = filter (\<lambda>sg. sg \<noteq> []) (split_slash (drop (length API_URL) (url x))),
      multipart = (case formData x of
                     [] \<Rightarrow> None
                   | (fld, file) # others \<Rightarrow>
                       Some \<lparr>fieldname = fld, filename = name file, data = contents file\<rparr>)\<rparr>"

section \<open>Observations and sample data\<close>

text \<open>
  What a test would read off a response: its status, a member of its JSON
  object, the file names of a listing.  \<open>stored_names\<close> are the entries of the
  storage directory (none when it cannot be read), and \<open>inside\<close> says that a
  resolved path lies in or below a resolved directory.
\<close>

definition status_of :: "outcome \<Rightarrow> nat option" where
  "status_of out = (case out of Responded r \<Rightarrow> Some (status r) | Rejected \<Rightarrow> None)"

definition field :: "string \<Rightarrow> json \<Rightarrow> json option" where
  "field k j = (case j of JObj kv \<Rightarrow> map_of kv k | _ \<Rightarrow> None)"

definition json_of :: "outcome \<Rightarrow> json option" where
  "json_of out =
     (case out of
        Responded r \<Rightarrow> (case body r of Json j \<Rightarrow> Some j | Attachment n c \<Rightarrow> None)
      | Rejected \<Rightarrow> None)"

definition fileName_of :: "json \<Rightarrow> string list" where
  "fileName_of d = (case field ''fileName'' d of Some (JStr n) \<Rightarrow> [n] | _ \<Rightarrow> [])"

definition listed_names :: "outcome \<Rightarrow> string list" where
  "listed_names out =
     (case json_of out of
        Some j \<Rightarrow> (case field ''files'' j of Some (JArr ds) \<Rightarrow> concat (map fileName_of ds) | _ \<Rightarrow> [])
      | None \<Rightarrow> [])"

definition stored_names :: "env \<Rightarrow> filesys \<Rightarrow> string list" where
  "stored_names e f = (case readdirSync f (LOCAL_UPLOAD_DIR e) of Inl err \<Rightarrow> [] | Inr ns \<Rightarrow> ns)"

definition inside :: "filesys \<Rightarrow> string \<Rightarrow> string \<Rightarrow> bool" where
  "inside f root p = prefix (resolve f root) (resolve f p)"

definition file_content :: "filesys \<Rightarrow> string \<Rightarrow> bytes option" where
  "file_content f p = (case lookup f p of Some (File c b m) \<Rightarrow> Some c | _ \<Rightarrow> None)"

text \<open>
  A destination that \<^verbatim>\<open>fs.copyFileSync\<close> can write: a regular file to
  overwrite, or a free name in a directory that exists.
\<close>

definition writable :: "filesys \<Rightarrow> string \<Rightarrow> bool" where
  "writable f dst =
     (case lookup f dst of
        Some (Dir n b m) \<Rightarrow> False
      | Some (File c b m) \<Rightarrow> True
      | None \<Rightarrow>
          dst \<noteq> [] \<and> resolve f dst \<noteq> [] \<and>
          (case map_of (nodes f) (butlast (resolve f dst)) of
             Some (Dir n b m) \<Rightarrow> True
           | Some (File c b m) \<Rightarrow> False
           | None \<Rightarrow> False))"

text \<open>The last two steps of \<^verbatim>\<open>toFixed(2)\<close>: pad to three digits, put the point.\<close>

definition point2 :: "string \<Rightarrow> string" where
  "point2 m =
     (let z = (if length m \<le> 2 then replicate (3 - length m) CHR ''0'' @ m else m)
      in take (length z - 2) z @ ''.'' @ drop (length z - 2) z)"

text \<open>A segment that normalising keeps as it is, unless a later \<^verbatim>\<open>..\<close> removes it.\<close>

definition good_seg :: "string \<Rightarrow> bool" where
  "good_seg sg = (sg \<noteq> [] \<and> sg \<noteq> ''.'' \<and> CHR ''/'' \<notin> set sg)"

text \<open>
  What holds of the segments collected while normalising: each is a proper
  segment, and for an absolute path (which starts at the root) none is \<^verbatim>\<open>..\<close>.
\<close>

definition norm_inv :: "bool \<Rightarrow> string list \<Rightarrow> string list \<Rightarrow> bool" where
  "norm_inv a start acc =
     (list_all good_seg acc \<and> (\<not> a \<longrightarrow> ''..'' \<notin> set acc \<and> start = []))"

text \<open>
  A small disk: the application in \<^verbatim>\<open>/app\<close> with one stored file, a
  neighbouring directory \<^verbatim>\<open>/app/uploads2\<close>, and multer's directory with one
  temporary file.  Three configurations: the default root, the absolute root of
  the container image, and the working directory itself as root.
\<close>

definition fs_sample :: filesys where
  "fs_sample =
     \<lparr>cwd = [''app''],
      nodes = [([], Dir 4096 0 0), ([''app''], Dir 4096 0 0),
               ([''app'', ''uploads''], Dir 4096 1 1),
               ([''app'', ''uploads'', ''5-old.csv''], File ''x,y'' 5 5),
               ([''app'', ''uploads2''], Dir 4096 1 1),
               ([''app'', ''uploads2'', ''secret.csv''], File ''s3cret'' 2 2),
               ([''tmp''], Dir 4096 0 0), ([''tmp'', ''uploads''], Dir 4096 0 0),
               ([''tmp'', ''uploads'', ''0a1b''], File ''a,b'' 7 7)]\<rparr>"

definition env_default :: env where
  "env_default = \<lparr>UPLOAD_DIR = None, NODE_ENV = None\<rparr>"

definition env_docker :: env where
  "env_docker = \<lparr>UPLOAD_DIR = Some ''/app/uploads'', NODE_ENV = None\<rparr>"

definition env_dot :: env where
  "env_dot = \<lparr>UPLOAD_DIR = Some ''./'', NODE_ENV = None\<rparr>"

definition tmp_sales :: upload_file where
  "tmp_sales = \<lparr>originalname = ''sales.csv'', path = ''/tmp/uploads/0a1b'', file_size = 3\<rparr>"

definition tmp_data_txt :: upload_file where
  "tmp_data_txt = \<lparr>originalname = ''data.txt'', path = ''/tmp/uploads/0a1b'', file_size = 3\<rparr>"

definition sales_csv :: browser_file where
  "sales_csv = \<lparr>name = ''sales.csv'', blob_size = 8, contents = ''a,b 1,2 ''\<rparr>"

definition notes_txt :: browser_file where
  "notes_txt = \<lparr>name = ''notes.txt'', blob_size = 5, contents = ''hello''\<rparr>"

definition big_contents :: bytes where
  "big_contents = replicate 104857601 (CHR ''x'')"

definition big_csv :: browser_file where
  "big_csv = \<lparr>name = ''big.csv'', blob_size = 104857601, contents = big_contents\<rparr>"

definition page_initial :: page where
  "page_initial =
     \<lparr>selectedFile = None, fileInput_value = [], file_name_text = [], file_size_text = [],
      fileInfo_hidden = True, uploadBtn_disabled = True, progressContainer_hidden = True,
      progressFill_width = ''0%'', progressText_text = ''0%'', loadingState_hidden = True,
      filesContainer_hidden = True, emptyState_hidden = True, toast = None, sent = []\<rparr>"

definition page_selected :: page where
  "page_selected = handleFileDrop [sales_csv] page_initial"

section \<open>Strings and paths: lemmas\<close>

lemma startsWith_prefix: "startsWith s p \<longleftrightarrow> prefix p s"
  unfolding startsWith_def by (metis append_eq_conv_conj prefix_def take_is_prefix)

lemma endsWith_suffix: "endsWith s p \<longleftrightarrow> suffix p s"
  unfolding endsWith_def
  by (metis suffix_def suffix_drop suffix_length_le append_eq_conv_conj length_append
      add_diff_cancel_right')

lemma split_slash_nonempty: "split_slash p \<noteq> []"
  by (induction p) (auto split: list.splits)

lemma split_slash_no_slash: "sg \<in> set (split_slash p) \<Longrightarrow> CHR ''/'' \<notin> set sg"
  by (induction p arbitrary: sg) (auto split: list.splits if_splits)

lemma norm_step_good:
  "list_all good_seg res \<Longrightarrow> CHR ''/'' \<notin> set sg \<Longrightarrow> list_all good_seg (norm_step a res sg)"
  unfolding norm_step_def good_seg_def
  by (auto simp: list_all_iff dest: in_set_butlastD)

lemma foldl_norm_good:
  "list_all good_seg res \<Longrightarrow> \<forall>sg \<in> set sgs. CHR ''/'' \<notin> set sg \<Longrightarrow>
     list_all good_seg (foldl (norm_step a) res sgs)"
  by (induction sgs arbitrary: res) (auto simp: norm_step_good)

text \<open>A normalised relative path never begins with \<^verbatim>\<open>./\<close>, unless it is \<^verbatim>\<open>./\<close>.\<close>

lemma join_slash_good_no_dot_slash:
  "list_all good_seg sgs \<Longrightarrow> \<not> prefix ''./'' (join_slash sgs)"
proof (cases sgs)
  case Nil
  then show ?thesis by simp
next
  case (Cons sg rest)
  assume g: "list_all good_seg sgs"
  with Cons have gs: "sg \<noteq> []" "sg \<noteq> ''.''" "CHR ''/'' \<notin> set sg"
    by (auto simp: good_seg_def)
  then obtain c cs where sg: "sg = c # cs" by (cases sg) auto
  show ?thesis
  proof (cases cs)
    case Nil
    with sg gs Cons show ?thesis by (cases rest) auto
  next
    case (Cons d ds)
    with sg gs \<open>sgs = sg # rest\<close> show ?thesis by (cases rest) auto
  qed
qed

lemma join_slash_good_not_dot:
  "list_all good_seg sgs \<Longrightarrow> join_slash sgs \<noteq> ''.''"
proof (cases sgs)
  case Nil
  then show ?thesis by simp
next
  case (Cons sg rest)
  assume "list_all good_seg sgs"
  with Cons show ?thesis
    by (cases rest; cases sg) (auto simp: good_seg_def)
qed

lemma normalizeString_no_dot_slash: "\<not> prefix ''./'' (normalizeString p a)"
  unfolding normalizeString_def
  by (rule join_slash_good_no_dot_slash, rule foldl_norm_good) (auto dest: split_slash_no_slash)

lemma normalizeString_not_dot: "normalizeString p a \<noteq> ''.''"
  unfolding normalizeString_def
  by (rule join_slash_good_not_dot, rule foldl_norm_good) (auto dest: split_slash_no_slash)

lemma no_dot_slash_append:
  assumes "q \<noteq> []" "\<not> prefix ''./'' q" "q \<noteq> ''.''"
  shows "\<not> prefix ''./'' (q @ t)"
proof (cases q)
  case Nil
  with assms show ?thesis by simp
next
  case (Cons c cs)
  with assms show ?thesis by (cases cs) auto
qed

lemma posix_normalize_relative:
  assumes "\<not> isAbsolute p" "prefix ''./'' (posix_normalize p)"
  shows "posix_normalize p = ''./''"
proof -
  have "\<not> prefix ''./'' (normalizeString p True @ t)" if "normalizeString p True \<noteq> []" for t
    using that by (intro no_dot_slash_append normalizeString_no_dot_slash normalizeString_not_dot)
  then show ?thesis using assms
    by (auto simp: posix_normalize_def Let_def split: if_splits)
qed

lemma join2_relative:
  assumes "prefix ''./'' root" "prefix ''./'' (join2 root nm)"
  shows "join2 root nm = ''./''"
proof -
  from assms(1) obtain r where root: "root = CHR ''.'' # CHR ''/'' # r"
    by (auto simp: prefix_def)
  then have "\<not> isAbsolute root" "\<not> isAbsolute (root @ CHR ''/'' # nm)"
    by (simp_all add: isAbsolute_def)
  with assms(2) root show ?thesis
    by (auto simp: join2_def split: if_splits intro: posix_normalize_relative)
qed

lemma guard_rejects_relative_root:
  assumes "startsWith root ''./''" "root \<noteq> ''./''"
  shows "\<not> startsWith (join2 root nm) root"
proof
  assume "startsWith (join2 root nm) root"
  then have pr: "prefix root (join2 root nm)" by (simp add: startsWith_prefix)
  from assms(1) have r: "prefix ''./'' root" by (simp add: startsWith_prefix)
  with pr have "prefix ''./'' (join2 root nm)" by (meson prefix_order.trans)
  with r have "join2 root nm = ''./''" by (rule join2_relative)
  with pr have "prefix root ''./''" by simp
  with r have "root = ''./''" by (simp add: prefix_order.antisym)
  with assms(2) show False by simp
qed

text \<open>
  Normalising does not change where a path leads: the operating system resolves
  \<^verbatim>\<open>path.join(a, b)\<close> to the same place as \<^verbatim>\<open>a/b\<close>.
\<close>

lemma split_slash_append:
  "split_slash (a @ CHR ''/'' # b) = split_slash a @ split_slash b"
proof (induction a)
  case Nil
  then show ?case by simp
next
  case (Cons c a)
  then show ?case
    using split_slash_nonempty [of a] by (cases "split_slash a") auto
qed

lemma split_slash_single: "CHR ''/'' \<notin> set s \<Longrightarrow> split_slash s = [s]"
  by (induction s) auto

lemma split_join_slash:
  "sgs \<noteq> [] \<Longrightarrow> \<forall>sg \<in> set sgs. CHR ''/'' \<notin> set sg \<Longrightarrow> split_slash (join_slash sgs) = sgs"
proof (induction sgs rule: join_slash.induct)
  case 1
  then show ?case by simp
next
  case (2 s)
  then show ?case by (simp add: split_slash_single)
next
  case (3 s v va)
  then show ?case by (simp add: split_slash_append split_slash_single)
qed

lemma os_step_good: "good_seg s \<Longrightarrow> s \<noteq> ''..'' \<Longrightarrow> os_step r s = r @ [s]"
  by (simp add: os_step_def good_seg_def)

lemma foldl_os_step_snoc: "foldl os_step start (acc @ [s]) = os_step (foldl os_step start acc) s"
  by simp

lemma norm_step_os_step:
  assumes "norm_inv a start acc"
  shows "foldl os_step start (norm_step a acc s) = os_step (foldl os_step start acc) s"
proof -
  consider (skip) "s = [] \<or> s = ''.''" | (up) "s = ''..''" | (seg) "s \<noteq> []" "s \<noteq> ''.''" "s \<noteq> ''..''"
    by blast
  then show ?thesis
  proof cases
    case skip
    then show ?thesis by (auto simp: norm_step_def os_step_def)
  next
    case seg
    then show ?thesis by (simp add: norm_step_def)
  next
    case up
    show ?thesis
    proof (cases "acc \<noteq> [] \<and> last acc \<noteq> ''..''")
      case True
      then have acc: "acc = butlast acc @ [last acc]" by simp
      from assms True have "good_seg (last acc)"
        by (simp add: norm_inv_def list_all_iff)
      with True have "os_step (foldl os_step start (butlast acc)) (last acc)
                      = foldl os_step start (butlast acc) @ [last acc]"
        by (simp add: os_step_good)
      then have "foldl os_step start acc = foldl os_step start (butlast acc) @ [last acc]"
        using acc foldl_os_step_snoc [of start "butlast acc" "last acc"] by simp
      with up True show ?thesis by (simp add: norm_step_def os_step_def)
    next
      case False
      show ?thesis
      proof (cases a)
        case True
        with up False show ?thesis by (auto simp: norm_step_def)
      next
        case na: False
        with assms have "''..'' \<notin> set acc" "start = []" by (auto simp: norm_inv_def)
        with False have "acc = []" by (cases acc rule: rev_cases) auto
        with up na \<open>start = []\<close> show ?thesis by (simp add: norm_step_def os_step_def)
      qed
    qed
  qed
qed

lemma norm_step_inv:
  "norm_inv a start acc \<Longrightarrow> CHR ''/'' \<notin> set s \<Longrightarrow> norm_inv a start (norm_step a acc s)"
  unfolding norm_inv_def
  by (auto simp: norm_step_good) (auto simp: norm_step_def dest: in_set_butlastD split: if_splits)

lemma foldl_norm_os:
  "norm_inv a start acc \<Longrightarrow> \<forall>sg \<in> set sgs. CHR ''/'' \<notin> set sg \<Longrightarrow>
     foldl os_step start (foldl (norm_step a) acc sgs) = foldl os_step (foldl os_step start acc) sgs"
proof (induction sgs arbitrary: acc)
  case Nil
  then show ?case by simp
next
  case (Cons s sgs)
  then show ?case by (simp add: norm_step_inv norm_step_os_step)
qed


lemma join_slash_Nil_iff: "list_all good_seg sgs \<Longrightarrow> join_slash sgs = [] \<longleftrightarrow> sgs = []"
  by (induction sgs rule: join_slash.induct) (auto simp: good_seg_def)

lemma join_slash_Cons: "\<exists>t. join_slash (s # rest) = s @ t"
  by (cases rest) auto

lemma join_slash_not_absolute:
  assumes "list_all good_seg sgs"
  shows "\<not> isAbsolute (join_slash sgs)"
proof (cases sgs)
  case Nil
  then show ?thesis by (simp add: isAbsolute_def)
next
  case (Cons s rest)
  with assms obtain c cs where s: "s = c # cs" "c \<noteq> CHR ''/''"
    by (cases s) (auto simp: good_seg_def)
  from join_slash_Cons [of s rest] obtain t where "join_slash (s # rest) = s @ t" by blast
  with s Cons show ?thesis by (simp add: isAbsolute_def)
qed

lemma foldl_os_step_trailing:
  "foldl os_step s (split_slash (q @ ''/'')) = foldl os_step s (split_slash q)"
  using split_slash_append [of q "[]"] by (simp add: os_step_def)

lemma foldl_os_step_leading:
  "foldl os_step s (split_slash (CHR ''/'' # q)) = foldl os_step s (split_slash q)"
  by (simp add: os_step_def)

lemma resolve_posix_normalize:
  assumes "p \<noteq> []"
  shows "resolve f (posix_normalize p) = resolve f p"
proof -
  let ?a = "\<not> isAbsolute p"
  let ?start = "if isAbsolute p then [] else cwd f"
  let ?N = "foldl (norm_step ?a) [] (split_slash p)"
  have slash: "\<forall>sg \<in> set (split_slash p). CHR ''/'' \<notin> set sg"
    by (auto dest: split_slash_no_slash)
  have inv: "norm_inv ?a ?start []" by (simp add: norm_inv_def)
  have os: "foldl os_step ?start ?N = foldl os_step ?start (split_slash p)"
    using foldl_norm_os [OF inv slash] by simp
  have good: "list_all good_seg ?N"
    by (rule foldl_norm_good) (use slash in auto)
  have rp: "resolve f p = foldl os_step ?start (split_slash p)"
    by (simp add: resolve_def)
  show ?thesis
  proof (cases "?N = []")
    case True
    then have q: "normalizeString p ?a = []" by (simp add: normalizeString_def)
    from True os have "foldl os_step ?start (split_slash p) = ?start" by simp
    with q rp assms show ?thesis
      by (simp add: posix_normalize_def Let_def resolve_def isAbsolute_def os_step_def)
  next
    case False
    with good have qne: "normalizeString p ?a \<noteq> []"
      by (simp add: normalizeString_def join_slash_Nil_iff)
    from good have qrel: "\<not> isAbsolute (normalizeString p ?a)"
      by (simp add: normalizeString_def join_slash_not_absolute)
    from False good have sq: "split_slash (normalizeString p ?a) = ?N"
      unfolding normalizeString_def
      by (intro split_join_slash) (auto simp: list_all_iff good_seg_def)
    have abs: "isAbsolute (posix_normalize p) = isAbsolute p"
      using qne qrel assms
      by (cases "normalizeString p ?a")
         (auto simp: posix_normalize_def Let_def isAbsolute_def split: list.splits)
    have "foldl os_step s (split_slash (posix_normalize p)) = foldl os_step s ?N" for s
    proof (cases "isAbsolute p")
      case True
      with qne assms sq show ?thesis
        by (simp add: posix_normalize_def Let_def foldl_os_step_trailing foldl_os_step_leading
              del: split_slash.simps)
    next
      case False
      with qne assms sq show ?thesis
        by (simp add: posix_normalize_def Let_def foldl_os_step_trailing foldl_os_step_leading
              del: split_slash.simps)
    qed
    with abs os rp show ?thesis by (simp add: resolve_def)
  qed
qed

lemma resolve_join2:
  assumes "a \<noteq> []" "b \<noteq> []"
  shows "resolve f (join2 a b) = resolve f (a @ CHR ''/'' # b)"
  using assms by (simp add: join2_def resolve_posix_normalize)

lemma resolve_join2_child:
  assumes "root \<noteq> []" "good_seg nm" "nm \<noteq> ''..''"
  shows "resolve f (join2 root nm) = resolve f root @ [nm]"
proof -
  from assms have nm: "nm \<noteq> []" "CHR ''/'' \<notin> set nm" by (auto simp: good_seg_def)
  from assms(1) have abs: "isAbsolute (root @ CHR ''/'' # nm) = isAbsolute root"
    by (cases root) (auto simp: isAbsolute_def)
  have "resolve f (join2 root nm) = resolve f (root @ CHR ''/'' # nm)"
    using assms(1) nm(1) by (rule resolve_join2)
  also have "\<dots> = os_step (resolve f root) nm"
    using abs nm by (simp add: resolve_def split_slash_append split_slash_single)
  also have "\<dots> = resolve f root @ [nm]"
    using assms by (simp add: os_step_good)
  finally show ?thesis .
qed

lemma digit_char_is_digit: "is_digit (digit_char d)"
  unfolding is_digit_def digit_char_def by (rule nth_mem) simp

lemma show_nat_digits: "show_nat n \<noteq> [] \<and> list_all is_digit (show_nat n)"
proof (induction n rule: show_nat.induct)
  case (1 n)
  then show ?case
    by (subst (1 2) show_nat.simps) (auto simp: digit_char_is_digit)
qed

lemma saved_name_good:
  assumes "CHR ''/'' \<notin> set orig"
  shows "good_seg (show_nat now @ ''-'' @ orig) \<and> show_nat now @ ''-'' @ orig \<noteq> ''..''"
proof -
  from show_nat_digits [of now] obtain d ds where sn: "show_nat now = d # ds" "is_digit d" "list_all is_digit ds"
    by (cases "show_nat now") auto
  then have "d \<noteq> CHR ''.''" "CHR ''/'' \<notin> set (d # ds)"
    by (auto simp: is_digit_def list_all_iff)
  with sn assms show ?thesis by (auto simp: good_seg_def)
qed

lemmas path_defs =
  join2_def posix_normalize_def normalizeString_def norm_step_def isAbsolute_def
  trailingSeparator_def startsWith_def endsWith_def

lemmas fs_defs =
  lookup_def resolve_def os_step_def existsSync_def statSync_def unlinkSync_def
  copyFileSync_def writeFile_def readdirSync_def

lemmas sample_defs =
  fs_sample_def env_default_def env_docker_def env_dot_def tmp_sales_def tmp_data_txt_def
  LOCAL_UPLOAD_DIR_def

lemmas handler_defs =
  getFileMetadata_def downloadFile_def download_def listFiles_def handleUpload_def upload_try_def
  upload_catch_def access_denied_def file_not_found_def respond_def file_detail_def basename_def
  errorHandler_def list_failed_def health_def live_def ready_def notFound_def dispatch_def
  multer_single_def

lemmas client_defs =
  showToast_def displayFileInfo_def handleFileDrop_def removeFile_def resetProgress_def
  loadFiles_begin_def uploadFile_def on_load_def on_error_def received_def toFixed2_def
  sales_csv_def page_initial_def page_selected_def

section \<open>The traversal guard\<close>

text \<open>
  Claim C3, amended.  When the storage root begins with \<^verbatim>\<open>./\<close> and is not
  \<^verbatim>\<open>./\<close> itself (the default \<^verbatim>\<open>./uploads\<close> is such a root), the joined path
  never begins with the root, because \<^verbatim>\<open>path.join\<close> normalises the leading
  \<^verbatim>\<open>./\<close> away.  So \<^verbatim>\<open>GET /files/:fileName\<close> and \<^verbatim>\<open>GET /download/:fileName\<close>
  answer 403 \<^verbatim>\<open>Access denied\<close> for every name, whatever the disk holds.
\<close>

theorem C3_relative_root_denies_every_name:
  assumes "startsWith (LOCAL_UPLOAD_DIR e) ''./''" and "LOCAL_UPLOAD_DIR e \<noteq> ''./''"
  shows "getFileMetadata e nm f =
           Responded \<lparr>status = 403,
                      body = Json (JObj [(''success'', JBool False), (''error'', JStr ''Access denied'')])\<rparr>
         \<and> downloadFile e nm f =
           Responded \<lparr>status = 403,
                      body = Json (JObj [(''success'', JBool False), (''error'', JStr ''Access denied'')])\<rparr>"
  using guard_rejects_relative_root [OF assms, of nm]
  by (simp add: getFileMetadata_def downloadFile_def access_denied_def respond_def)

text \<open>
  The theorem at the default root, for the name of a file that is in the
  storage directory.
\<close>

theorem C3_relative_root_denies_every_name_witness:
  "startsWith (LOCAL_UPLOAD_DIR env_default) ''./'' \<and> LOCAL_UPLOAD_DIR env_default \<noteq> ''./''
   \<and> ''5-old.csv'' \<in> set (stored_names env_default fs_sample)
   \<and> status_of (getFileMetadata env_default ''5-old.csv'' fs_sample) = Some 403
   \<and> status_of (downloadFile env_default ''5-old.csv'' fs_sample) = Some 403"
proof -
  have h1: "startsWith (LOCAL_UPLOAD_DIR env_default) ''./''"
    by (simp add: sample_defs startsWith_def)
  have h2: "LOCAL_UPLOAD_DIR env_default \<noteq> ''./''"
    by (simp add: sample_defs)
  have h3: "''5-old.csv'' \<in> set (stored_names env_default fs_sample)"
    by (simp add: stored_names_def sample_defs fs_defs isAbsolute_def)
  show ?thesis
    using h1 h2 h3 C3_relative_root_denies_every_name [OF h1 h2, of "''5-old.csv''" fs_sample]
    by (simp add: status_of_def)
qed

text \<open>
  The claim as stated covers every root that begins with \<^verbatim>\<open>./\<close>.  It fails
  for the root \<^verbatim>\<open>./\<close>: the name \<^verbatim>\<open>./\<close> joins to \<^verbatim>\<open>./\<close>, the guard lets
  it pass, and the metadata of the working directory is returned.
\<close>

theorem C3_root_dot_slash_counterexample:
  "startsWith (LOCAL_UPLOAD_DIR env_dot) ''./''
   \<and> startsWith (join2 (LOCAL_UPLOAD_DIR env_dot) ''./'') (LOCAL_UPLOAD_DIR env_dot)
   \<and> status_of (getFileMetadata env_dot ''./'' fs_sample) = Some 200"
  by (simp add: sample_defs path_defs fs_defs getFileMetadata_def respond_def status_of_def Let_def)

text \<open>
  Claim C4.  The guard compares strings: a name that climbs out of the root and
  into a neighbour whose name continues the root's (\<^verbatim>\<open>/app/uploads2\<close> beside
  \<^verbatim>\<open>/app/uploads\<close>) joins to a path that still begins with the root string.
  With the container's root \<^verbatim>\<open>/app/uploads\<close> and the name
  \<^verbatim>\<open>../uploads2/secret.csv\<close> the path lies outside the storage root, yet
  both handlers pass the guard, read the file and answer 200.
\<close>

theorem C4_sibling_directory_passes_guard:
  "join2 (LOCAL_UPLOAD_DIR env_docker) ''../uploads2/secret.csv'' = ''/app/uploads2/secret.csv''
   \<and> \<not> inside fs_sample (LOCAL_UPLOAD_DIR env_docker) ''/app/uploads2/secret.csv''
   \<and> getFileMetadata env_docker ''../uploads2/secret.csv'' fs_sample =
       Responded \<lparr>status = 200,
         body = Json (JObj [(''success'', JBool True),
                 (''file'', JObj [(''fileName'', JStr ''../uploads2/secret.csv''), (''size'', JNum 6),
                                  (''createdAt'', JDate 2), (''modifiedAt'', JDate 2),
                                  (''path'', JStr ''/app/uploads2/secret.csv'')])])\<rparr>
   \<and> downloadFile env_docker ''../uploads2/secret.csv'' fs_sample =
       Responded \<lparr>status = 200, body = Attachment ''secret.csv'' ''s3cret''\<rparr>"
  by (simp add: sample_defs path_defs fs_defs handler_defs inside_def Let_def)

section \<open>Routes the server does not have\<close>

lemma stat_each_names:
  "stat_each f root ns = Inr ds \<Longrightarrow> concat (map fileName_of ds) = ns"
  by (induction ns arbitrary: ds)
     (auto simp: fileName_of_def field_def file_detail_def split: sum.splits)

lemma listed_subset_stored:
  "set (listed_names (listFiles e f)) \<subseteq> set (stored_names e f)"
proof (cases "readdirSync f (LOCAL_UPLOAD_DIR e)")
  case (Inl err)
  then show ?thesis
    by (simp add: listed_names_def listFiles_def json_of_def field_def respond_def list_failed_def)
next
  case (Inr ns)
  show ?thesis
  proof (cases "stat_each f (LOCAL_UPLOAD_DIR e) ns")
    case (Inl err)
    with Inr show ?thesis
      by (simp add: listed_names_def listFiles_def json_of_def field_def respond_def list_failed_def)
  next
    case (Inr ds)
    from stat_each_names [OF Inr] \<open>readdirSync f (LOCAL_UPLOAD_DIR e) = Inr ns\<close> Inr show ?thesis
      by (simp add: listed_names_def listFiles_def json_of_def field_def respond_def stored_names_def)
  qed
qed

text \<open>
  Claim C2, amended.  \<^verbatim>\<open>server.js\<close> registers no \<^verbatim>\<open>DELETE\<close> route.  A
  \<^verbatim>\<open>DELETE /delete/:fileName\<close> request, for a stored name or any other, falls
  through to the catch-all handler: HTTP 404 with \<^verbatim>\<open>error: "Not found"\<close>, the
  path and the method, and the disk is left as it was.  A name that was not in
  the storage directory is not in a listing made afterwards.
\<close>

theorem C2_delete_is_not_routed:
  "dispatch e now later tmpname \<lparr>req_method = DELETE, segments = [''delete'', nm], multipart = mp\<rparr> f =
     (Responded \<lparr>status = 404,
                 body = Json (JObj [(''success'', JBool False), (''error'', JStr ''Not found''),
                                    (''path'', JStr (''/delete/'' @ nm)), (''method'', JStr ''DELETE'')])\<rparr>,
      f)
   \<and> (nm \<notin> set (stored_names e f) \<longrightarrow>
        nm \<notin> set (listed_names
                     (listFiles e (snd (dispatch e now later tmpname
                        \<lparr>req_method = DELETE, segments = [''delete'', nm], multipart = mp\<rparr> f)))))"
proof -
  have d: "dispatch e now later tmpname \<lparr>req_method = DELETE, segments = [''delete'', nm], multipart = mp\<rparr> f =
     (Responded \<lparr>status = 404,
                 body = Json (JObj [(''success'', JBool False), (''error'', JStr ''Not found''),
                                    (''path'', JStr (''/delete/'' @ nm)), (''method'', JStr ''DELETE'')])\<rparr>,
      f)"
    by (simp add: dispatch_def notFound_def respond_def)
  show ?thesis
    unfolding d using listed_subset_stored [of e f] by auto
qed

theorem C2_delete_is_not_routed_witness:
  "''nope.csv'' \<notin> set (stored_names env_docker fs_sample)
   \<and> status_of (fst (dispatch env_docker 17 18 ''ffff''
          \<lparr>req_method = DELETE, segments = [''delete'', ''nope.csv''], multipart = None\<rparr> fs_sample)) = Some 404
   \<and> ''nope.csv'' \<notin> set (listed_names (listFiles env_docker (snd (dispatch env_docker 17 18 ''ffff''
          \<lparr>req_method = DELETE, segments = [''delete'', ''nope.csv''], multipart = None\<rparr> fs_sample))))"
proof -
  have h: "''nope.csv'' \<notin> set (stored_names env_docker fs_sample)"
    by (simp add: stored_names_def sample_defs fs_defs isAbsolute_def)
  show ?thesis
    using h C2_delete_is_not_routed [of env_docker 17 18 "''ffff''" "''nope.csv''" None fs_sample]
    by (auto simp: status_of_def)
qed

text \<open>
  The claim as stated has the request remove a stored file and return 200.
  For the stored file \<^verbatim>\<open>5-old.csv\<close> the answer is 404 and the file is still
  on disk.
\<close>

theorem C2_stored_file_survives_delete_counterexample:
  "''5-old.csv'' \<in> set (stored_names env_docker fs_sample)
   \<and> status_of (fst (dispatch env_docker 17 18 ''ffff''
          \<lparr>req_method = DELETE, segments = [''delete'', ''5-old.csv''], multipart = None\<rparr> fs_sample)) = Some 404
   \<and> existsSync (snd (dispatch env_docker 17 18 ''ffff''
          \<lparr>req_method = DELETE, segments = [''delete'', ''5-old.csv''], multipart = None\<rparr> fs_sample))
        ''/app/uploads/5-old.csv''"
  by (simp add: dispatch_def notFound_def respond_def status_of_def stored_names_def sample_defs fs_defs
        isAbsolute_def)

text \<open>
  What \<^verbatim>\<open>uploadFile\<close> sends for any pending file, and what the server makes of
  a \<^verbatim>\<open>POST /uploads3\<close>.
\<close>

lemma uploadFile_request:
  assumes "selectedFile s = Some file"
  shows "sent (uploadFile API_URL False s) =
           sent s @ [\<lparr>request_method = POST, url = API_URL @ ''/uploads3'', formData = [(''csv'', file)]\<rparr>]"
  using assms by (simp add: uploadFile_def Let_def)

lemma uploads3_is_not_routed:
  "dispatch e now later tmpname \<lparr>req_method = POST, segments = [''uploads3''], multipart = mp\<rparr> f =
     (Responded \<lparr>status = 404,
                 body = Json (JObj [(''success'', JBool False), (''error'', JStr ''Not found''),
                                    (''path'', JStr ''/uploads3''), (''method'', JStr ''POST'')])\<rparr>, f)"
  by (simp add: dispatch_def notFound_def respond_def)

text \<open>
  Claim C1.  \<^verbatim>\<open>uploadFile\<close> does build a multipart body with the file under
  the field \<^verbatim>\<open>csv\<close>, but it opens the request on \<^verbatim>\<open>/uploads3\<close>, not on
  \<^verbatim>\<open>/upload\<close>.  The server has no such route: for the pending file
  \<^verbatim>\<open>sales.csv\<close> the request is answered by the catch-all with 404 and nothing
  is stored.
\<close>

theorem C1_upload_posts_to_uploads3:
  "selectedFile page_selected = Some sales_csv
   \<and> sent (uploadFile ''http://localhost:3000'' False page_selected) =
       [\<lparr>request_method = POST, url = ''http://localhost:3000/uploads3'',
         formData = [(''csv'', sales_csv)]\<rparr>]
   \<and> dispatch env_default 17 18 ''ffff''
        (received ''http://localhost:3000''
           (last (sent (uploadFile ''http://localhost:3000'' False page_selected)))) fs_sample =
       (Responded \<lparr>status = 404,
                   body = Json (JObj [(''success'', JBool False), (''error'', JStr ''Not found''),
                                      (''path'', JStr ''/uploads3''), (''method'', JStr ''POST'')])\<rparr>,
        fs_sample)"
  by (simp add: client_defs path_defs dispatch_def notFound_def respond_def Let_def)

section \<open>Probes\<close>

text \<open>
  Claim C9.  \<^verbatim>\<open>GET /health\<close> answers 200 with \<^verbatim>\<open>status\<close>, \<^verbatim>\<open>timestamp\<close> and
  \<^verbatim>\<open>service\<close>, and \<^verbatim>\<open>GET /live\<close> answers 200 with \<^verbatim>\<open>live: true\<close>, whatever
  the configuration, the clock and the disk are.  \<^verbatim>\<open>GET /ready\<close> answers 200
  with \<^verbatim>\<open>ready: true\<close> and \<^verbatim>\<open>storage\<close> when the storage root exists, and 503
  with \<^verbatim>\<open>ready: false\<close> when it does not.  None of them changes the disk.
\<close>

theorem C9_probes:
  "dispatch e now later tmpname \<lparr>req_method = GET, segments = [''health''], multipart = mp\<rparr> f =
     (Responded \<lparr>status = 200,
                 body = Json (JObj [(''status'', JStr ''ok''), (''timestamp'', JDate now),
                                    (''service'', JStr ''csv-upload'')])\<rparr>, f)
   \<and> dispatch e now later tmpname \<lparr>req_method = GET, segments = [''live''], multipart = mp\<rparr> f =
     (Responded \<lparr>status = 200, body = Json (JObj [(''live'', JBool True)])\<rparr>, f)
   \<and> dispatch e now later tmpname \<lparr>req_method = GET, segments = [''ready''], multipart = mp\<rparr> f =
     (if existsSync f (LOCAL_UPLOAD_DIR e)
      then Responded \<lparr>status = 200,
                      body = Json (JObj [(''ready'', JBool True), (''storage'', JStr ''available'')])\<rparr>
      else Responded \<lparr>status = 503,
                      body = Json (JObj [(''ready'', JBool False), (''storage'', JStr ''unavailable'')])\<rparr>,
      f)"
  by (simp add: dispatch_def health_def live_def ready_def respond_def)

text \<open>
  The three probes on the sample disk, and readiness once more with a storage
  root that does not exist.
\<close>

theorem C9_probes_witness:
  "status_of (fst (dispatch env_docker 17 18 ''ffff''
      \<lparr>req_method = GET, segments = [''health''], multipart = None\<rparr> fs_sample)) = Some 200
   \<and> status_of (fst (dispatch env_docker 17 18 ''ffff''
      \<lparr>req_method = GET, segments = [''live''], multipart = None\<rparr> fs_sample)) = Some 200
   \<and> status_of (fst (dispatch env_docker 17 18 ''ffff''
      \<lparr>req_method = GET, segments = [''ready''], multipart = None\<rparr> fs_sample)) = Some 200
   \<and> status_of (fst (dispatch \<lparr>UPLOAD_DIR = Some ''/nowhere'', NODE_ENV = None\<rparr> 17 18 ''ffff''
      \<lparr>req_method = GET, segments = [''ready''], multipart = None\<rparr> fs_sample)) = Some 503"
  using C9_probes [of env_docker 17 18 "''ffff''" None fs_sample]
    C9_probes [of "\<lparr>UPLOAD_DIR = Some ''/nowhere'', NODE_ENV = None\<rparr>" 17 18 "''ffff''" None fs_sample]
  by (simp add: status_of_def sample_defs fs_defs isAbsolute_def)

section \<open>The upload handler\<close>

lemma resolve_nodes_update [simp]: "resolve (f\<lparr>nodes := x\<rparr>) p = resolve f p"
  by (simp add: resolve_def)

lemma lookup_delete:
  "lookup (f\<lparr>nodes := AList.delete k (nodes f)\<rparr>) p = (if resolve f p = k then None else lookup f p)"
  by (simp add: lookup_def delete_conv)

lemma lookup_update:
  "lookup (f\<lparr>nodes := AList.update k v (nodes f)\<rparr>) p =
     (if p = [] then None else if resolve f p = k then Some v else lookup f p)"
  by (simp add: lookup_def update_conv')

lemma unlinkSync_File:
  "lookup f p = Some (File c b m) \<Longrightarrow>
     unlinkSync f p = Inr (f\<lparr>nodes := AList.delete (resolve f p) (nodes f)\<rparr>)"
  by (simp add: unlinkSync_def)

lemma writeFile_result:
  assumes "writeFile f dst c now = Inr f1"
  shows "\<exists>b'. f1 = f\<lparr>nodes := AList.update (resolve f dst) (File c b' now) (nodes f)\<rparr>"
  using assms by (auto simp: writeFile_def split: option.splits node.splits if_splits)

lemma writeFile_nonempty: "writeFile f dst c now = Inr f1 \<Longrightarrow> dst \<noteq> []"
  by (auto simp: writeFile_def lookup_def split: option.splits node.splits if_splits)

lemma writeFile_keeps_files:
  assumes "writeFile f dst c now = Inr f1" "lookup f p = Some (File c0 b m)"
  shows "\<exists>c1 b1 m1. lookup f1 p = Some (File c1 b1 m1)"
proof -
  from writeFile_result [OF assms(1)] obtain b' where
    f1: "f1 = f\<lparr>nodes := AList.update (resolve f dst) (File c b' now) (nodes f)\<rparr>" by blast
  from assms(2) have "p \<noteq> []" by (auto simp: lookup_def split: if_splits)
  with f1 assms(2) show ?thesis by (simp add: lookup_update)
qed

lemma writeFile_writable:
  assumes "writable f dst"
  shows "\<exists>b'. writeFile f dst c now =
           Inr (f\<lparr>nodes := AList.update (resolve f dst) (File c b' now) (nodes f)\<rparr>)"
  using assms by (auto simp: writable_def writeFile_def split: option.splits node.splits)

lemma LOCAL_UPLOAD_DIR_nonempty: "LOCAL_UPLOAD_DIR e \<noteq> []"
  by (simp add: LOCAL_UPLOAD_DIR_def split: option.splits)

lemma stored_names_delete:
  "set (stored_names e (f\<lparr>nodes := AList.delete k (nodes f)\<rparr>)) \<subseteq> set (stored_names e f)"
proof (cases "resolve f (LOCAL_UPLOAD_DIR e) = k")
  case True
  then show ?thesis
    by (simp add: stored_names_def readdirSync_def lookup_delete)
next
  case False
  have "set (map last (filter P (map fst (AList.delete k (nodes f)))))
          \<subseteq> set (map last (filter P (map fst (nodes f))))" for P
    by (auto simp: delete_keys)
  with False show ?thesis
    by (simp add: stored_names_def readdirSync_def lookup_delete split: option.splits node.splits)
qed

text \<open>A \<^verbatim>\<open>POST /upload\<close> without a file part reaches the handler with no \<^verbatim>\<open>req.file\<close>.\<close>

lemma upload_without_file_part:
  "dispatch e now later tmpname \<lparr>req_method = POST, segments = [''upload''], multipart = None\<rparr> f =
     handleUpload e now later None f"
  by (simp add: dispatch_def multer_single_def)

text \<open>
  Claim C5.  Without a file part the handler answers 400 \<^verbatim>\<open>No file provided\<close>
  and leaves the disk alone.  For a file whose original name does not end in
  \<^verbatim>\<open>.csv\<close> (multer having written it to its temporary path) it removes the
  temporary file and answers 400 \<^verbatim>\<open>Only CSV files are allowed\<close>: afterwards the
  temporary file is gone and the storage directory has no entry that it did not
  have before.
\<close>

theorem C5_upload_rejects_missing_and_non_csv:
  "handleUpload e now later None f =
     (Responded \<lparr>status = 400,
                 body = Json (JObj [(''success'', JBool False), (''error'', JStr ''No file provided'')])\<rparr>, f)
   \<and> (\<not> endsWith (originalname file) ''.csv'' \<and> lookup f (path file) = Some (File c b m) \<longrightarrow>
        handleUpload e now later (Some file) f =
          (Responded \<lparr>status = 400,
                      body = Json (JObj [(''success'', JBool False),
                                         (''error'', JStr ''Only CSV files are allowed'')])\<rparr>,
           f\<lparr>nodes := AList.delete (resolve f (path file)) (nodes f)\<rparr>)
        \<and> \<not> existsSync (snd (handleUpload e now later (Some file) f)) (path file)
        \<and> set (stored_names e (snd (handleUpload e now later (Some file) f))) \<subseteq> set (stored_names e f))"
proof -
  have a: "handleUpload e now later None f =
     (Responded \<lparr>status = 400,
                 body = Json (JObj [(''success'', JBool False), (''error'', JStr ''No file provided'')])\<rparr>, f)"
    by (simp add: handleUpload_def upload_try_def respond_def)
  have b: "handleUpload e now later (Some file) f =
          (Responded \<lparr>status = 400,
                      body = Json (JObj [(''success'', JBool False),
                                         (''error'', JStr ''Only CSV files are allowed'')])\<rparr>,
           f\<lparr>nodes := AList.delete (resolve f (path file)) (nodes f)\<rparr>)"
    if "\<not> endsWith (originalname file) ''.csv''" "lookup f (path file) = Some (File c b m)"
    using that by (simp add: handleUpload_def upload_try_def respond_def unlinkSync_File)
  show ?thesis
    using a b by (auto simp: existsSync_def lookup_delete dest: subsetD [OF stored_names_delete])
qed

text \<open>The scenario of the specification: \<^verbatim>\<open>data.txt\<close> is refused and nothing is stored.\<close>

theorem C5_upload_rejects_missing_and_non_csv_witness:
  "\<not> endsWith (originalname tmp_data_txt) ''.csv''
   \<and> lookup fs_sample (path tmp_data_txt) = Some (File ''a,b'' 7 7)
   \<and> status_of (fst (handleUpload env_default 17 18 None fs_sample)) = Some 400
   \<and> status_of (fst (handleUpload env_default 17 18 (Some tmp_data_txt) fs_sample)) = Some 400
   \<and> \<not> existsSync (snd (handleUpload env_default 17 18 (Some tmp_data_txt) fs_sample)) ''/tmp/uploads/0a1b''
   \<and> stored_names env_default (snd (handleUpload env_default 17 18 (Some tmp_data_txt) fs_sample)) = [''5-old.csv'']"
proof -
  have h1: "\<not> endsWith (originalname tmp_data_txt) ''.csv''"
    by (simp add: tmp_data_txt_def endsWith_def)
  have h2: "lookup fs_sample (path tmp_data_txt) = Some (File ''a,b'' 7 7)"
    by (simp add: sample_defs fs_defs isAbsolute_def)
  show ?thesis
    using h1 h2
      C5_upload_rejects_missing_and_non_csv [of env_default 17 18 fs_sample tmp_data_txt "''a,b''" 7 7]
    by (simp add: status_of_def stored_names_def sample_defs fs_defs isAbsolute_def path_defs)
qed

text \<open>
  Claim C6.  For a file whose original name ends in \<^verbatim>\<open>.csv\<close>, with its bytes
  \<open>c\<close> in the temporary file, a destination that can be written and that is
  not the temporary file itself, the handler answers 200 with \<^verbatim>\<open>fileName\<close>,
  \<^verbatim>\<open>savedAs\<close>, \<^verbatim>\<open>size\<close>, \<^verbatim>\<open>path\<close> and \<^verbatim>\<open>uploadedAt\<close>.  The stored name is
  the decimal digits of \<^verbatim>\<open>Date.now()\<close>, a hyphen and the original name; the
  bytes are in the file of that name under the storage root, and the temporary
  file is gone.  When the original name has no slash, that file is a direct
  entry of the storage directory.
\<close>

theorem C6_upload_stores_under_timestamped_name:
  assumes csv: "endsWith (originalname file) ''.csv''"
    and tmp: "lookup f (path file) = Some (File c b m)"
    and wr: "writable f (join2 (LOCAL_UPLOAD_DIR e) (show_nat now @ ''-'' @ originalname file))"
    and ne: "resolve f (path file) \<noteq>
             resolve f (join2 (LOCAL_UPLOAD_DIR e) (show_nat now @ ''-'' @ originalname file))"
  shows "fst (handleUpload e now later (Some file) f) =
           Responded \<lparr>status = 200,
             body = Json (JObj
               [(''success'', JBool True),
                (''message'', JStr ''File uploaded successfully''),
                (''fileName'', JStr (originalname file)),
                (''savedAs'', JStr (show_nat now @ ''-'' @ originalname file)),
                (''size'', JNum (file_size file)),
                (''path'', JStr (join2 (LOCAL_UPLOAD_DIR e) (show_nat now @ ''-'' @ originalname file))),
                (''uploadedAt'', JDate later)])\<rparr>
       \<and> show_nat now \<noteq> [] \<and> list_all is_digit (show_nat now)
       \<and> file_content (snd (handleUpload e now later (Some file) f))
             (join2 (LOCAL_UPLOAD_DIR e) (show_nat now @ ''-'' @ originalname file)) = Some c
       \<and> \<not> existsSync (snd (handleUpload e now later (Some file) f)) (path file)
       \<and> (CHR ''/'' \<notin> set (originalname file) \<longrightarrow>
            resolve f (join2 (LOCAL_UPLOAD_DIR e) (show_nat now @ ''-'' @ originalname file)) =
            resolve f (LOCAL_UPLOAD_DIR e) @ [show_nat now @ ''-'' @ originalname file])"
proof -
  let ?nm = "show_nat now @ ''-'' @ originalname file"
  let ?dst = "join2 (LOCAL_UPLOAD_DIR e) ?nm"
  from writeFile_writable [OF wr, of c now] obtain b' where
    w: "writeFile f ?dst c now = Inr (f\<lparr>nodes := AList.update (resolve f ?dst) (File c b' now) (nodes f)\<rparr>)"
    by blast
  let ?f1 = "f\<lparr>nodes := AList.update (resolve f ?dst) (File c b' now) (nodes f)\<rparr>"
  let ?f2 = "?f1\<lparr>nodes := AList.delete (resolve f (path file)) (nodes ?f1)\<rparr>"
  from tmp have pne: "path file \<noteq> []" by (auto simp: lookup_def split: if_splits)
  from w have dne: "?dst \<noteq> []" by (rule writeFile_nonempty)
  from tmp w have cp: "copyFileSync f (path file) ?dst now = Inr ?f1"
    by (simp add: copyFileSync_def)
  from tmp pne ne have l1: "lookup ?f1 (path file) = Some (File c b m)"
    by (simp add: lookup_update)
  then have ul: "unlinkSync ?f1 (path file) = Inr ?f2"
    using unlinkSync_File [of ?f1 "path file" c b m] by simp
  from csv cp ul have h: "handleUpload e now later (Some file) f =
     (respond 200
        [(''success'', JBool True),
         (''message'', JStr ''File uploaded successfully''),
         (''fileName'', JStr (originalname file)),
         (''savedAs'', JStr ?nm),
         (''size'', JNum (file_size file)),
         (''path'', JStr ?dst),
         (''uploadedAt'', JDate later)], ?f2)"
    by (simp add: handleUpload_def upload_try_def Let_def)
  have stored: "file_content ?f2 ?dst = Some c"
    using ne dne by (simp add: file_content_def lookup_def delete_conv update_conv')
  have gone: "\<not> existsSync ?f2 (path file)"
    by (simp add: existsSync_def lookup_def delete_conv)
  have child: "resolve f ?dst = resolve f (LOCAL_UPLOAD_DIR e) @ [?nm]"
    if "CHR ''/'' \<notin> set (originalname file)"
    using saved_name_good [OF that, of now] LOCAL_UPLOAD_DIR_nonempty [of e]
    by (simp add: resolve_join2_child)
  show ?thesis
    unfolding h using stored gone child show_nat_digits [of now]
    by (simp add: respond_def)
qed

text \<open>
  The scenario of the specification: \<^verbatim>\<open>sales.csv\<close> uploaded at epoch
  millisecond 1705324245123 with the default root.
\<close>

theorem C6_upload_stores_under_timestamped_name_witness:
  "endsWith (originalname tmp_sales) ''.csv''
   \<and> lookup fs_sample (path tmp_sales) = Some (File ''a,b'' 7 7)
   \<and> writable fs_sample (join2 (LOCAL_UPLOAD_DIR env_default) (show_nat 1705324245123 @ ''-'' @ originalname tmp_sales))
   \<and> resolve fs_sample (path tmp_sales) \<noteq>
       resolve fs_sample (join2 (LOCAL_UPLOAD_DIR env_default) (show_nat 1705324245123 @ ''-'' @ originalname tmp_sales))
   \<and> CHR ''/'' \<notin> set (originalname tmp_sales)
   \<and> status_of (fst (handleUpload env_default 1705324245123 1705324245130 (Some tmp_sales) fs_sample)) = Some 200
   \<and> Option.bind (json_of (fst (handleUpload env_default 1705324245123 1705324245130 (Some tmp_sales) fs_sample)))
        (field ''savedAs'') = Some (JStr ''1705324245123-sales.csv'')
   \<and> file_content (snd (handleUpload env_default 1705324245123 1705324245130 (Some tmp_sales) fs_sample))
        ''uploads/1705324245123-sales.csv'' = Some ''a,b''
   \<and> \<not> existsSync (snd (handleUpload env_default 1705324245123 1705324245130 (Some tmp_sales) fs_sample))
        ''/tmp/uploads/0a1b''
   \<and> resolve fs_sample ''uploads/1705324245123-sales.csv'' =
        [''app'', ''uploads'', ''1705324245123-sales.csv'']"
proof -
  have n: "show_nat 1705324245123 = ''1705324245123''"
    by (simp add: show_nat.simps digit_char_def)
  have o: "originalname tmp_sales = ''sales.csv''" by (simp add: tmp_sales_def)
  have p: "path tmp_sales = ''/tmp/uploads/0a1b''" by (simp add: tmp_sales_def)
  have j: "join2 (LOCAL_UPLOAD_DIR env_default) ''1705324245123-sales.csv''
           = ''uploads/1705324245123-sales.csv''"
    by (simp add: sample_defs path_defs)
  have r: "resolve fs_sample (LOCAL_UPLOAD_DIR env_default) = [''app'', ''uploads'']"
    by (simp add: sample_defs fs_defs isAbsolute_def)
  have h1: "endsWith (originalname tmp_sales) ''.csv''"
    by (simp add: o endsWith_def)
  have h2: "lookup fs_sample (path tmp_sales) = Some (File ''a,b'' 7 7)"
    by (simp add: p sample_defs fs_defs isAbsolute_def)
  have h3: "writable fs_sample (join2 (LOCAL_UPLOAD_DIR env_default) (show_nat 1705324245123 @ ''-'' @ originalname tmp_sales))"
    by (simp add: n o j) (simp add: writable_def sample_defs fs_defs isAbsolute_def)
  have h4: "resolve fs_sample (path tmp_sales) \<noteq>
       resolve fs_sample (join2 (LOCAL_UPLOAD_DIR env_default) (show_nat 1705324245123 @ ''-'' @ originalname tmp_sales))"
    by (simp add: n o p j) (simp add: sample_defs fs_defs isAbsolute_def)
  have h5: "CHR ''/'' \<notin> set (originalname tmp_sales)"
    by (simp add: o)
  from C6_upload_stores_under_timestamped_name [OF h1 h2 h3 h4, of 1705324245130] h1 h2 h3 h4 h5
  show ?thesis
    by (simp add: n o p j r status_of_def json_of_def field_def)
qed

text \<open>
  Claim C10.  Whenever the request carried a file part, so that multer's
  temporary file is on disk when the handler starts, the handler answers (400 for
  a wrong type, 200 after copying, 500 when the copy throws) and the temporary
  file does not exist afterwards.
\<close>

theorem C10_temp_file_never_survives:
  assumes tmp: "lookup f (path file) = Some (File c b m)"
  shows "status_of (fst (handleUpload e now later (Some file) f)) \<in> {Some 200, Some 400, Some 500}
         \<and> \<not> existsSync (snd (handleUpload e now later (Some file) f)) (path file)"
proof (cases "endsWith (originalname file) ''.csv''")
  case False
  with tmp show ?thesis
    by (simp add: handleUpload_def upload_try_def unlinkSync_File respond_def existsSync_def
          lookup_delete status_of_def)
next
  case True
  let ?dst = "join2 (LOCAL_UPLOAD_DIR e) (show_nat now @ ''-'' @ originalname file)"
  from tmp have cp: "copyFileSync f (path file) ?dst now = writeFile f ?dst c now"
    by (simp add: copyFileSync_def)
  show ?thesis
  proof (cases "writeFile f ?dst c now")
    case (Inl err)
    with True cp tmp show ?thesis
      by (simp add: handleUpload_def upload_try_def upload_catch_def Let_def unlinkSync_File
            respond_def existsSync_def lookup_delete status_of_def)
  next
    case (Inr f1)
    from writeFile_keeps_files [OF Inr tmp] obtain c1 b1 m1 where
      k: "lookup f1 (path file) = Some (File c1 b1 m1)" by blast
    with True cp Inr show ?thesis
      by (simp add: handleUpload_def upload_try_def Let_def unlinkSync_File
            respond_def existsSync_def lookup_delete status_of_def)
  qed
qed

text \<open>
  The three outcomes on the sample disk: a wrong type, a successful copy, and a
  copy that throws because the storage root does not exist.
\<close>

theorem C10_temp_file_never_survives_witness:
  "lookup fs_sample (path tmp_data_txt) = Some (File ''a,b'' 7 7)
   \<and> lookup fs_sample (path tmp_sales) = Some (File ''a,b'' 7 7)
   \<and> status_of (fst (handleUpload env_default 17 18 (Some tmp_data_txt) fs_sample)) = Some 400
   \<and> \<not> existsSync (snd (handleUpload env_default 17 18 (Some tmp_data_txt) fs_sample)) (path tmp_data_txt)
   \<and> status_of (fst (handleUpload env_default 17 18 (Some tmp_sales) fs_sample)) = Some 200
   \<and> \<not> existsSync (snd (handleUpload env_default 17 18 (Some tmp_sales) fs_sample)) (path tmp_sales)
   \<and> status_of (fst (handleUpload \<lparr>UPLOAD_DIR = Some ''/nowhere'', NODE_ENV = None\<rparr> 17 18
                      (Some tmp_sales) fs_sample)) = Some 500
   \<and> \<not> existsSync (snd (handleUpload \<lparr>UPLOAD_DIR = Some ''/nowhere'', NODE_ENV = None\<rparr> 17 18
                         (Some tmp_sales) fs_sample)) (path tmp_sales)"
proof -
  have h1: "lookup fs_sample (path tmp_data_txt) = Some (File ''a,b'' 7 7)"
    by (simp add: sample_defs fs_defs isAbsolute_def)
  have h2: "lookup fs_sample (path tmp_sales) = Some (File ''a,b'' 7 7)"
    by (simp add: sample_defs fs_defs isAbsolute_def)
  have s1: "status_of (fst (handleUpload env_default 17 18 (Some tmp_data_txt) fs_sample)) = Some 400"
    by (simp add: handler_defs sample_defs fs_defs path_defs status_of_def)
  have s2: "status_of (fst (handleUpload env_default 17 18 (Some tmp_sales) fs_sample)) = Some 200"
    by (simp add: handler_defs sample_defs fs_defs path_defs status_of_def show_nat.simps
          digit_char_def Let_def)
  have s3: "status_of (fst (handleUpload \<lparr>UPLOAD_DIR = Some ''/nowhere'', NODE_ENV = None\<rparr> 17 18
                      (Some tmp_sales) fs_sample)) = Some 500"
    by (simp add: handler_defs sample_defs fs_defs path_defs status_of_def show_nat.simps
          digit_char_def Let_def)
  show ?thesis
    using h1 h2 s1 s2 s3
      C10_temp_file_never_survives [OF h1, of env_default 17 18]
      C10_temp_file_never_survives [OF h2, of env_default 17 18]
      C10_temp_file_never_survives [OF h2, of "\<lparr>UPLOAD_DIR = Some ''/nowhere'', NODE_ENV = None\<rparr>" 17 18]
    by simp
qed

section \<open>The client: selecting a file\<close>

lemma digit_char_0: "digit_char 0 = CHR ''0''"
  by (simp add: digit_char_def)

lemma show_nat_small: "n < 10 \<Longrightarrow> show_nat n = [digit_char n]"
  by (subst show_nat.simps) simp

lemma show_nat_large: "10 \<le> n \<Longrightarrow> show_nat n = show_nat (n div 10) @ [digit_char (n mod 10)]"
  by (subst show_nat.simps) simp

lemma show_nat_nonempty: "show_nat n \<noteq> []"
  by (subst show_nat.simps) simp

lemma point2_1: "point2 [a] = [CHR ''0'', CHR ''.'', CHR ''0'', a]"
  by (simp add: point2_def)

lemma point2_2: "point2 [a, b] = [CHR ''0'', CHR ''.'', a, b]"
  by (simp add: point2_def)

lemma point2_more: "ds \<noteq> [] \<Longrightarrow> point2 (ds @ [a, b]) = ds @ [CHR ''.'', a, b]"
  by (cases ds) (simp_all add: point2_def)

text \<open>The text of \<^verbatim>\<open>toFixed(2)\<close>: the hundredths \<open>n\<close>, written with two decimals.\<close>

lemma point2_show_nat:
  "point2 (show_nat n) =
     show_nat (n div 100) @ ''.'' @ [digit_char (n div 10 mod 10), digit_char (n mod 10)]"
proof -
  consider (a) "n < 10" | (b) "10 \<le> n" "n < 100" | (c) "100 \<le> n" by linarith
  then show ?thesis
  proof cases
    case a
    then have "n div 100 = 0" "n div 10 = 0" "n mod 10 = n" by simp_all
    with a show ?thesis
      by (simp add: show_nat_small point2_1 digit_char_0)
  next
    case b
    then have d: "n div 10 < 10" "n div 100 = 0" by simp_all
    from b have "show_nat n = [digit_char (n div 10), digit_char (n mod 10)]"
      using d by (simp add: show_nat_large show_nat_small)
    with d show ?thesis
      by (simp add: point2_2 show_nat_small digit_char_0)
  next
    case c
    have e: "n div 10 div 10 = n div 100" by (simp add: div_mult2_eq [symmetric])
    from c have "10 \<le> n" "10 \<le> n div 10" by simp_all
    then have "show_nat n = show_nat (n div 100) @ [digit_char (n div 10 mod 10), digit_char (n mod 10)]"
      using show_nat_large [of n] show_nat_large [of "n div 10"] e by simp
    then show ?thesis
      by (simp add: point2_more show_nat_nonempty)
  qed
qed

lemma toFixed2_digits:
  "toFixed2 num den =
     show_nat ((200 * num + den) div (2 * den) div 100) @ ''.'' @
       [digit_char ((200 * num + den) div (2 * den) div 10 mod 10),
        digit_char ((200 * num + den) div (2 * den) mod 10)]"
  using point2_show_nat [of "(200 * num + den) div (2 * den)"]
  by (simp add: toFixed2_def point2_def Let_def)

lemma div_bounds:
  fixes x d :: nat
  assumes "0 < d"
  shows "d * (x div d) \<le> x \<and> x < d * (x div d + 1)"
  using assms by (simp add: dividend_less_times_div)

text \<open>
  Claim C7.  An empty selection changes nothing, not even the toast.  A first
  file whose name does not end in \<^verbatim>\<open>.csv\<close>, or whose size exceeds 104,857,600
  bytes, only raises an error toast: \<^verbatim>\<open>selectedFile\<close> and the rest of the page
  stay as they were, so the rejected file is not made the pending candidate.
  An accepted file becomes \<^verbatim>\<open>selectedFile\<close>, its name is shown, the upload
  button is enabled, and the size text is \<open>n\<close> hundredths of a kilobyte written
  with two decimals and followed by \<^verbatim>\<open>KB\<close>, where \<open>n / 100\<close> is within half a
  hundredth of \<open>size / 1024\<close>.
\<close>

theorem C7_selectFile_validates:
  "handleFileDrop [] s = s
   \<and> (\<not> endsWith (name file) ''.csv'' \<longrightarrow>
        handleFileDrop (file # rest) s = s\<lparr>toast := Some (''Please select a CSV file'', ''error'')\<rparr>)
   \<and> (endsWith (name file) ''.csv'' \<and> 104857600 < blob_size file \<longrightarrow>
        handleFileDrop (file # rest) s =
          s\<lparr>toast := Some (''File size must be less than 100MB'', ''error'')\<rparr>)
   \<and> (endsWith (name file) ''.csv'' \<and> blob_size file \<le> 104857600 \<longrightarrow>
        handleFileDrop (file # rest) s =
          s\<lparr>selectedFile := Some file,
            file_name_text := name file,
            file_size_text :=
              show_nat ((200 * blob_size file + 1024) div 2048 div 100) @ ''.'' @
              [digit_char ((200 * blob_size file + 1024) div 2048 div 10 mod 10),
               digit_char ((200 * blob_size file + 1024) div 2048 mod 10)] @ '' KB'',
            fileInfo_hidden := False,
            uploadBtn_disabled := False\<rparr>
        \<and> 2048 * ((200 * blob_size file + 1024) div 2048) \<le> 200 * blob_size file + 1024
        \<and> 200 * blob_size file + 1024 < 2048 * ((200 * blob_size file + 1024) div 2048 + 1))"
  using div_bounds [of 2048 "200 * blob_size file + 1024"]
  by (simp add: handleFileDrop_def showToast_def displayFileInfo_def toFixed2_digits)

text \<open>
  An empty selection, a text file, a CSV file of 104,857,601 bytes, and the
  8-byte \<^verbatim>\<open>sales.csv\<close>, which is shown as \<^verbatim>\<open>0.01 KB\<close>.
\<close>

theorem C7_selectFile_validates_witness:
  "handleFileDrop [] page_initial = page_initial
   \<and> \<not> endsWith (name notes_txt) ''.csv''
   \<and> selectedFile (handleFileDrop [notes_txt] page_initial) = None
   \<and> toast (handleFileDrop [notes_txt] page_initial) = Some (''Please select a CSV file'', ''error'')
   \<and> endsWith (name big_csv) ''.csv'' \<and> 104857600 < blob_size big_csv
   \<and> selectedFile (handleFileDrop [big_csv] page_initial) = None
   \<and> toast (handleFileDrop [big_csv] page_initial) = Some (''File size must be less than 100MB'', ''error'')
   \<and> endsWith (name sales_csv) ''.csv'' \<and> blob_size sales_csv \<le> 104857600
   \<and> selectedFile (handleFileDrop [sales_csv] page_initial) = Some sales_csv
   \<and> file_size_text (handleFileDrop [sales_csv] page_initial) = ''0.01 KB''"
proof -
  have h1: "\<not> endsWith (name notes_txt) ''.csv''"
    by (simp add: notes_txt_def endsWith_def)
  have h2: "endsWith (name big_csv) ''.csv'' \<and> 104857600 < blob_size big_csv"
    by (simp add: big_csv_def endsWith_def)
  have h3: "endsWith (name sales_csv) ''.csv'' \<and> blob_size sales_csv \<le> 104857600"
    by (simp add: sales_csv_def endsWith_def)
  have n: "blob_size sales_csv = 8" by (simp add: sales_csv_def)
  have i: "selectedFile page_initial = None" by (simp add: page_initial_def)
  show ?thesis
    using h1 h2 h3 i
      C7_selectFile_validates [of page_initial notes_txt "[]"]
      C7_selectFile_validates [of page_initial big_csv "[]"]
      C7_selectFile_validates [of page_initial sales_csv "[]"]
    by (simp add: n show_nat_small digit_char_def)
qed

section \<open>The client: settling an upload\<close>

text \<open>
  With a pending file, a request in flight ends in one of four ways that clean
  up: a status other than 200, a network error, an exception on sending, or a
  200 whose body parses.  In the first three the selection is kept and an error
  toast is shown; in all four the progress indicator is reset and the upload
  button is enabled.
\<close>

lemma upload_settles_cleanly:
  assumes "selectedFile s = Some file"
  shows "xhr_status \<noteq> 200 \<longrightarrow>
           selectedFile (on_load API_URL xhr_status parsed (uploadFile API_URL False s)) = Some file
           \<and> toast (on_load API_URL xhr_status parsed (uploadFile API_URL False s)) = Some (''Upload failed'', ''error'')
           \<and> progressContainer_hidden (on_load API_URL xhr_status parsed (uploadFile API_URL False s))
           \<and> \<not> uploadBtn_disabled (on_load API_URL xhr_status parsed (uploadFile API_URL False s))"
    and "selectedFile (on_error (uploadFile API_URL False s)) = Some file
           \<and> toast (on_error (uploadFile API_URL False s)) = Some (''Upload error. Please try again.'', ''error'')
           \<and> progressContainer_hidden (on_error (uploadFile API_URL False s))
           \<and> \<not> uploadBtn_disabled (on_error (uploadFile API_URL False s))"
    and "selectedFile (uploadFile API_URL True s) = Some file
           \<and> toast (uploadFile API_URL True s) = Some (''Error uploading file'', ''error'')
           \<and> progressContainer_hidden (uploadFile API_URL True s)
           \<and> \<not> uploadBtn_disabled (uploadFile API_URL True s)"
    and "selectedFile (on_load API_URL 200 (Some r) (uploadFile API_URL False s)) = None
           \<and> toast (on_load API_URL 200 (Some r) (uploadFile API_URL False s)) =
               Some (''File uploaded successfully!'', ''success'')
           \<and> progressContainer_hidden (on_load API_URL 200 (Some r) (uploadFile API_URL False s))
           \<and> \<not> uploadBtn_disabled (on_load API_URL 200 (Some r) (uploadFile API_URL False s))"
  using assms
  by (simp_all add: uploadFile_def on_load_def on_error_def showToast_def resetProgress_def
        removeFile_def loadFiles_begin_def Let_def)

text \<open>
  Claim C8.  The \<^verbatim>\<open>load\<close> listener parses the body of a 200 response before
  anything else.  When the body is not JSON the exception leaves the listener:
  with \<^verbatim>\<open>sales.csv\<close> pending and the request sent, the page after the event is
  the page before it, with the progress indicator still shown, the upload button
  still disabled and no notification.
\<close>

theorem C8_unparsable_200_skips_cleanup:
  "on_load ''http://localhost:3000'' 200 None (uploadFile ''http://localhost:3000'' False page_selected) =
     uploadFile ''http://localhost:3000'' False page_selected
   \<and> progressContainer_hidden
        (on_load ''http://localhost:3000'' 200 None (uploadFile ''http://localhost:3000'' False page_selected))
      = False
   \<and> uploadBtn_disabled
        (on_load ''http://localhost:3000'' 200 None (uploadFile ''http://localhost:3000'' False page_selected))
      = True
   \<and> toast
        (on_load ''http://localhost:3000'' 200 None (uploadFile ''http://localhost:3000'' False page_selected))
      = None"
  by (simp add: client_defs endsWith_def Let_def)

end
